theory Spec2Isabelle
  imports Main
begin

section \<open>The data model of \<open>fuel_test/ciswift.py\<close>\<close>

text \<open>
  \<open>ciswift.py\<close> imports its data classes from \<open>devops.model\<close>, its base class from
  \<open>ci\<close> and three name lists from \<open>settings\<close>. None of these modules is part of the
  file; the records below carry exactly the fields the file reads or writes.

  Objects are modelled by their values. \<open>describe_environment\<close> never assigns to a
  field of a \<open>Network\<close> after constructing it, so sharing a \<open>Network\<close> object between
  \<open>environment.networks\<close> and the argument list of \<open>describe_node\<close> is equality of the
  values.
\<close>

text \<open>
  Modelled from the spec: the class \<open>Network\<close> of \<open>devops.model\<close>, "name, boolean
  provides-DHCP flag", built by \<open>Network(name=..., dhcp_server=...)\<close>.
\<close>

record Network =
  name :: string
  dhcp_server :: bool

definition Network :: "string \<Rightarrow> bool \<Rightarrow> Network" where
  "Network nm dhcp = \<lparr>Network.name = nm, dhcp_server = dhcp\<rparr>"

text \<open>
  Modelled from the spec: the class \<open>Interface\<close> of \<open>devops.model\<close>; an interface
  references the network it is attached to.
\<close>

record Interface =
  network :: Network

text \<open>
  Modelled from the spec: the class \<open>Node\<close> of \<open>devops.model\<close>, "name, ordered
  collection of Interfaces (one per network the node is attached to)".
  \<open>describe_environment\<close> itself never looks inside a node, so it is polymorphic in
  the node type; this record is used where a claim speaks of a node's name or
  interfaces.
\<close>

record Node =
  name :: string
  interfaces :: "Interface list"

text \<open>
  Modelled from the spec: the class \<open>Environment\<close> of \<open>devops.model\<close>, "name + ordered
  collection of Networks + ordered collection of Nodes"; \<open>Environment(name)\<close> starts
  with both collections empty.
\<close>

record 'n Environment =
  name :: string
  networks :: "Network list"
  nodes :: "'n list"

definition Environment :: "string \<Rightarrow> 'n Environment" where
  "Environment nm = \<lparr>Environment.name = nm, networks = [], nodes = []\<rparr>"

text \<open>
  \<open>self\<close>: an instance of the base class \<open>Ci\<close>. The only attribute the file reads is
  \<open>environment_name\<close>; whatever else the base class keeps is the extension part of
  the record.
\<close>

record Ci =
  environment_name :: string

text \<open>
  The state the method runs in: the three module-level lists imported from
  \<open>settings\<close>, and \<open>self\<close>.
\<close>

record 'z world =
  keystones :: "string list"
  storages :: "string list"
  proxies :: "string list"
  self :: "'z Ci_scheme"

text \<open>
  \<open>self.describe_node(name, networks)\<close> is a method of the base class \<open>Ci\<close> and is
  not in the file, so it is a parameter of the model. It is a method on \<open>self\<close>: it
  receives the state of \<open>self\<close> and returns the state it leaves, together with either
  the node it built or the exception it raised.
\<close>

type_synonym ('z, 'e, 'n) describe_node =
  "'z Ci_scheme \<Rightarrow> string \<Rightarrow> Network list \<Rightarrow> ('e + 'n) \<times> 'z Ci_scheme"

section \<open>\<open>CiSwift.describe_environment\<close>\<close>

text \<open>
  The three loops of lines 16 to 24 have the same body:
  \<^verbatim>\<open>
  for node_name in <list>:
      client = self.describe_node(node_name, [internal, private, public])
      environment.nodes.append(client)
  \<close>
  An exception of \<open>describe_node\<close> leaves the loop and the method.
\<close>

fun for_node_name_in ::
  "('z, 'e, 'n) describe_node \<Rightarrow> Network list \<Rightarrow> string list \<Rightarrow>
   'n Environment \<Rightarrow> 'z Ci_scheme \<Rightarrow> ('e + 'n Environment) \<times> 'z Ci_scheme"
where
  "for_node_name_in describe_node nets [] environment s = (Inr environment, s)"
| "for_node_name_in describe_node nets (node_name # rest) environment s =
     (case describe_node s node_name nets of
        (Inl e, s') \<Rightarrow> (Inl e, s')
      | (Inr client, s') \<Rightarrow>
          for_node_name_in describe_node nets rest
            (environment\<lparr>nodes := nodes environment @ [client]\<rparr>) s')"

definition describe_environment ::
  "('z, 'e, 'n) describe_node \<Rightarrow> 'z world \<Rightarrow> ('e + 'n Environment) \<times> 'z world"
where
  "describe_environment describe_node w =
     (let environment = Environment (environment_name (self w));
          internal = Network ''internal'' True;
          environment = environment\<lparr>networks := networks environment @ [internal]\<rparr>;
          private = Network ''private'' False;
          environment = environment\<lparr>networks := networks environment @ [private]\<rparr>;
          public = Network ''public'' True;
          environment = environment\<lparr>networks := networks environment @ [public]\<rparr>
      in case describe_node (self w) ''master'' [internal, private, public] of
           (Inl e, s) \<Rightarrow> (Inl e, w\<lparr>self := s\<rparr>)
         | (Inr master, s) \<Rightarrow>
             (case for_node_name_in describe_node [internal, private, public] (keystones w)
                     (environment\<lparr>nodes := nodes environment @ [master]\<rparr>) s of
                (Inl e, s) \<Rightarrow> (Inl e, w\<lparr>self := s\<rparr>)
              | (Inr environment, s) \<Rightarrow>
                  (case for_node_name_in describe_node [internal, private, public]
                          (storages w) environment s of
                     (Inl e, s) \<Rightarrow> (Inl e, w\<lparr>self := s\<rparr>)
                   | (Inr environment, s) \<Rightarrow>
                       (case for_node_name_in describe_node [internal, private, public]
                               (proxies w) environment s of
                          (Inl e, s) \<Rightarrow> (Inl e, w\<lparr>self := s\<rparr>)
                        | (Inr environment, s) \<Rightarrow> (Inr environment, w\<lparr>self := s\<rparr>)))))"

section \<open>The result in the spec's words\<close>

text \<open>
  The spec's algorithm is "construct the master Node, then iterate the keystone names,
  then storage names, then proxy names, constructing and appending one Node per name":
  one call of \<open>describe_node\<close> per name of a single list, in list order, each call
  starting from the state of \<open>self\<close> the previous one left, the returned nodes
  collected in call order. \<open>describe_each\<close> is that reading, written without the
  environment; it is compared with the loops of the source below.
\<close>

fun describe_each ::
  "('z, 'e, 'n) describe_node \<Rightarrow> Network list \<Rightarrow> string list \<Rightarrow>
   'z Ci_scheme \<Rightarrow> ('e + 'n list) \<times> 'z Ci_scheme"
where
  "describe_each describe_node nets [] s = (Inr [], s)"
| "describe_each describe_node nets (node_name # rest) s =
     (case describe_node s node_name nets of
        (Inl e, s') \<Rightarrow> (Inl e, s')
      | (Inr node, s') \<Rightarrow>
          (case describe_each describe_node nets rest s' of
             (Inl e, s'') \<Rightarrow> (Inl e, s'')
           | (Inr ns, s'') \<Rightarrow> (Inr (node # ns), s'')))"

text \<open>The three networks of lines 8 to 13, in the order they are appended.\<close>

definition three_networks :: "Network list" where
  "three_networks =
     [Network ''internal'' True, Network ''private'' False, Network ''public'' True]"

section \<open>Concrete collaborators and inputs\<close>

text \<open>
  Modelled from the spec: the \<open>describe_node(name, networks) -> Node\<close> factory of the
  base class \<open>Ci\<close>, which is not in the file. The spec gives a Node a name and "one
  Interface per network the node is attached to"; this factory builds exactly that,
  never raises and leaves \<open>self\<close> as it was.
\<close>

definition Ci_describe_node :: "('z, 'e, Node) describe_node" where
  "Ci_describe_node s nm nets =
     (Inr \<lparr>Node.name = nm, interfaces = map (\<lambda>n. \<lparr>network = n\<rparr>) nets\<rparr>, s)"

text \<open>
  A factory that refuses a name it has already used (the spec's "name collisions"):
  the rest of \<open>self\<close> is the list of names used so far, and a second use of a name
  raises that name.
\<close>

definition unique_describe_node :: "(string list, string, Node) describe_node" where
  "unique_describe_node s nm nets =
     (if nm \<in> set (Ci.more s) then (Inl nm, s)
      else (Inr \<lparr>Node.name = nm, interfaces = map (\<lambda>n. \<lparr>network = n\<rparr>) nets\<rparr>,
            s\<lparr>Ci.more := nm # Ci.more s\<rparr>))"

text \<open>A factory that counts its calls in the rest of \<open>self\<close>.\<close>

definition counting_describe_node :: "(nat, 'e, Node) describe_node" where
  "counting_describe_node s nm nets =
     (Inr \<lparr>Node.name = nm, interfaces = map (\<lambda>n. \<lparr>network = n\<rparr>) nets\<rparr>,
      s\<lparr>Ci.more := Suc (Ci.more s)\<rparr>)"

text \<open>The settings of the spec's example, and settings with no empty list.\<close>

definition example_world :: "'z \<Rightarrow> 'z world" where
  "example_world z =
     \<lparr>keystones = [''keystone-1''], storages = [''storage-1'', ''storage-2''],
      proxies = [], self = \<lparr>environment_name = ''swift'', \<dots> = z\<rparr>\<rparr>"

definition full_world :: "'z \<Rightarrow> 'z world" where
  "full_world z =
     \<lparr>keystones = [''keystone-1''], storages = [''storage-1'', ''storage-2''],
      proxies = [''proxy-1''], self = \<lparr>environment_name = ''swift'', \<dots> = z\<rparr>\<rparr>"

text \<open>Settings with no names at all, and settings that use a name twice.\<close>

definition empty_world :: "'z \<Rightarrow> 'z world" where
  "empty_world z =
     \<lparr>keystones = [], storages = [], proxies = [],
      self = \<lparr>environment_name = ''swift'', \<dots> = z\<rparr>\<rparr>"

definition duplicate_world :: "'z \<Rightarrow> 'z world" where
  "duplicate_world z =
     \<lparr>keystones = [''node''], storages = [''node''], proxies = [],
      self = \<lparr>environment_name = ''swift'', \<dots> = z\<rparr>\<rparr>"

section \<open>The loops of the source against the spec's reading\<close>

lemma for_node_name_in_describe_each:
  "for_node_name_in dn nets names environment s =
     (case describe_each dn nets names s of
        (Inl e, s') \<Rightarrow> (Inl e, s')
      | (Inr ns, s') \<Rightarrow> (Inr (environment\<lparr>nodes := nodes environment @ ns\<rparr>), s'))"
proof (induction names arbitrary: environment s)
  case Nil
  show ?case by simp
next
  case (Cons node_name rest)
  show ?case
    by (simp add: Cons.IH split: prod.splits sum.splits)
qed

lemma describe_each_append:
  "describe_each dn nets (xs @ ys) s =
     (case describe_each dn nets xs s of
        (Inl e, s') \<Rightarrow> (Inl e, s')
      | (Inr ns, s') \<Rightarrow>
          (case describe_each dn nets ys s' of
             (Inl e, s'') \<Rightarrow> (Inl e, s'')
           | (Inr ms, s'') \<Rightarrow> (Inr (ns @ ms), s'')))"
  by (induction xs arbitrary: s) (auto split: prod.splits sum.splits)

lemma describe_environment_describe_each:
  "describe_environment dn w =
     (case describe_each dn three_networks
             (''master'' # keystones w @ storages w @ proxies w) (self w) of
        (Inl e, s) \<Rightarrow> (Inl e, w\<lparr>self := s\<rparr>)
      | (Inr ns, s) \<Rightarrow>
          (Inr \<lparr>Environment.name = environment_name (self w),
                networks = three_networks, nodes = ns\<rparr>,
           w\<lparr>self := s\<rparr>))"
  by (simp add: describe_environment_def Let_def Environment_def three_networks_def
        for_node_name_in_describe_each describe_each_append
      split: prod.splits sum.splits)


lemma describe_each_length:
  "describe_each dn nets names s = (Inr ns, s') \<Longrightarrow> length ns = length names"
  by (induction names arbitrary: s ns) (auto split: prod.splits sum.splits)

lemma describe_each_calls:
  "describe_each dn nets names s = (Inr ns, s') \<Longrightarrow>
   list_all2 (\<lambda>nm node. \<exists>s0 s1. dn s0 nm nets = (Inr node, s1)) names ns"
proof (induction names arbitrary: s ns)
  case Nil
  then show ?case by simp
next
  case (Cons nm rest)
  then show ?case
    by (fastforce split: prod.splits sum.splits)
qed

lemma describe_each_total:
  assumes "\<And>s nm. \<exists>node s1. dn s nm nets = (Inr node, s1)"
  shows "\<exists>ns s'. describe_each dn nets names s = (Inr ns, s')"
proof (induction names arbitrary: s)
  case Nil
  show ?case by simp
next
  case (Cons nm rest)
  obtain node s1 where call: "dn s nm nets = (Inr node, s1)"
    using assms by blast
  obtain ns s' where "describe_each dn nets rest s1 = (Inr ns, s')"
    using Cons.IH by blast
  with call show ?case by simp
qed

lemma describe_each_error:
  "describe_each dn nets names s = (Inl e, s') \<Longrightarrow>
   \<exists>s0 nm. nm \<in> set names \<and> dn s0 nm nets = (Inl e, s')"
proof (induction names arbitrary: s)
  case Nil
  then show ?case by simp
next
  case (Cons nm rest)
  then show ?case
    by (fastforce split: prod.splits sum.splits)
qed

lemma describe_each_frame:
  assumes "reflp R" and "transp R"
    and step: "\<And>s0 nm r s1. dn s0 nm nets = (r, s1) \<Longrightarrow> R s0 s1"
  shows "R s (snd (describe_each dn nets names s))"
proof (induction names arbitrary: s)
  case Nil
  from \<open>reflp R\<close> show ?case by (simp add: reflpD)
next
  case (Cons nm rest)
  obtain r s1 where call: "dn s nm nets = (r, s1)"
    by (cases "dn s nm nets")
  have first: "R s s1" using step call .
  show ?case
  proof (cases r)
    case (Inl e)
    with call first show ?thesis by simp
  next
    case (Inr node)
    have "R s1 (snd (describe_each dn nets rest s1))" by (rule Cons.IH)
    with first \<open>transp R\<close> have "R s (snd (describe_each dn nets rest s1))"
      by (blast dest: transpD)
    with call Inr show ?thesis
      by (auto split: prod.splits sum.splits)
  qed
qed

lemma describe_each_unwinding:
  assumes step: "\<And>s1 s2 nm. R s1 s2 \<Longrightarrow>
      fst (dn s1 nm nets) = fst (dn s2 nm nets) \<and> R (snd (dn s1 nm nets)) (snd (dn s2 nm nets))"
    and "R s1 s2"
  shows "fst (describe_each dn nets names s1) = fst (describe_each dn nets names s2)"
  using \<open>R s1 s2\<close>
proof (induction names arbitrary: s1 s2)
  case Nil
  show ?case by simp
next
  case (Cons nm rest)
  obtain r1 t1 where c1: "dn s1 nm nets = (r1, t1)" by (cases "dn s1 nm nets")
  obtain r2 t2 where c2: "dn s2 nm nets = (r2, t2)" by (cases "dn s2 nm nets")
  from step [OF Cons.prems, of nm] c1 c2 have eq: "r1 = r2" and rel: "R t1 t2"
    by simp_all
  from Cons.IH [OF rel]
  have "fst (describe_each dn nets rest t1) = fst (describe_each dn nets rest t2)" .
  with c1 c2 eq show ?case
    by (cases r2) (auto split: prod.splits sum.splits)
qed

lemma describe_each_ticks:
  assumes tick: "\<And>s0 nm. c (snd (dn s0 nm nets)) = Suc (c s0)"
  shows "describe_each dn nets names s = (Inr ns, s') \<Longrightarrow> c s' = c s + length names"
proof (induction names arbitrary: s ns)
  case Nil
  then show ?case by simp
next
  case (Cons nm rest)
  obtain r s1 where call: "dn s nm nets = (r, s1)" by (cases "dn s nm nets")
  from tick [of s nm] call have c1: "c s1 = Suc (c s)" by simp
  from Cons.prems call obtain node ms where r: "r = Inr node"
    and rest: "describe_each dn nets rest s1 = (Inr ms, s')"
    by (auto split: prod.splits sum.splits)
  from Cons.IH [OF rest] c1 show ?case by simp
qed

lemma describe_environment_returns:
  assumes "describe_environment dn w = (Inr env, w')"
  shows "describe_each dn three_networks
           (''master'' # keystones w @ storages w @ proxies w) (self w)
         = (Inr (nodes env), self w')"
    and "networks env = three_networks"
    and "Environment.name env = environment_name (self w)"
    and "w' = w\<lparr>self := self w'\<rparr>"
  using assms
  by (auto simp add: describe_environment_describe_each split: prod.splits sum.splits)

lemma describe_environment_raises:
  assumes "describe_environment dn w = (Inl e, w')"
  shows "describe_each dn three_networks
           (''master'' # keystones w @ storages w @ proxies w) (self w)
         = (Inl e, self w')"
    and "w' = w\<lparr>self := self w'\<rparr>"
  using assms
  by (auto simp add: describe_environment_describe_each split: prod.splits sum.splits)

lemma three_networks_literal:
  "three_networks =
     [\<lparr>Network.name = ''internal'', dhcp_server = True\<rparr>,
      \<lparr>Network.name = ''private'', dhcp_server = False\<rparr>,
      \<lparr>Network.name = ''public'', dhcp_server = True\<rparr>]"
  by (simp add: three_networks_def Network_def)

lemma describe_each_Ci_describe_node:
  "describe_each Ci_describe_node nets names s =
     (Inr (map (\<lambda>nm. \<lparr>Node.name = nm, interfaces = map (\<lambda>n. \<lparr>network = n\<rparr>) nets\<rparr>) names), s)"
  by (induction names) (simp_all add: Ci_describe_node_def)

lemma describe_environment_Ci_describe_node:
  "describe_environment Ci_describe_node w =
     (Inr \<lparr>Environment.name = environment_name (self w), networks = three_networks,
           nodes = map (\<lambda>nm. \<lparr>Node.name = nm,
                                interfaces = map (\<lambda>n. \<lparr>network = n\<rparr>) three_networks\<rparr>)
                     (''master'' # keystones w @ storages w @ proxies w)\<rparr>,
      w)"
  unfolding describe_environment_describe_each describe_each_Ci_describe_node
  by simp

lemma describe_environment_calls:
  assumes run: "describe_environment dn w = (Inr env, w')"
  shows "list_all2 (\<lambda>nm node. \<exists>s s'. dn s nm (networks env) = (Inr node, s'))
           (''master'' # keystones w @ storages w @ proxies w) (nodes env)"
  using describe_each_calls [OF describe_environment_returns(1) [OF run]]
    describe_environment_returns(2) [OF run]
  by simp

lemma describe_environment_total:
  assumes "\<And>s nm. \<exists>node s'. dn s nm three_networks = (Inr node, s')"
  shows "\<exists>env w'. describe_environment dn w = (Inr env, w')"
proof -
  obtain ns s' where "describe_each dn three_networks
      (''master'' # keystones w @ storages w @ proxies w) (self w) = (Inr ns, s')"
    using describe_each_total [of dn three_networks, OF assms] by blast
  then show ?thesis
    unfolding describe_environment_describe_each by simp
qed

lemma describe_environment_world:
  "snd (describe_environment dn w) =
     w\<lparr>self := snd (describe_each dn three_networks
                      (''master'' # keystones w @ storages w @ proxies w) (self w))\<rparr>"
  unfolding describe_environment_describe_each
  by (simp split: prod.splits sum.splits)

section \<open>The claims\<close>

text \<open>
  C1. For every (possibly empty) settings lists, the nodes of the Environment that
  \<open>describe_environment\<close> returns are, in this order: the node of \<open>'master'\<close>, then one
  node per name of \<open>keystones\<close> in list order, then one per name of \<open>storages\<close> in list
  order, then one per name of \<open>proxies\<close> in list order. Precisely: the nodes are what
  \<open>describe_node\<close> returned when called once per name of
  \<open>'master' # keystones @ storages @ proxies\<close>, in that order; and when \<open>describe_node\<close>
  labels each node with the name it was given, the labels of the nodes are that list.
\<close>

theorem describe_environment_node_order:
  assumes run: "describe_environment dn w = (Inr env, w')"
    and named: "\<forall>s nm nets node s'. dn s nm nets = (Inr node, s') \<longrightarrow> label node = nm"
  shows "describe_each dn (networks env)
           (''master'' # keystones w @ storages w @ proxies w) (self w)
         = (Inr (nodes env), self w')
       \<and> map label (nodes env) = ''master'' # keystones w @ storages w @ proxies w"
proof -
  let ?names = "''master'' # keystones w @ storages w @ proxies w"
  have each: "describe_each dn (networks env) ?names (self w) = (Inr (nodes env), self w')"
    using describe_environment_returns(1,2) [OF run] by simp
  from describe_each_calls [OF each]
  have "list_all2 (\<lambda>nm node. label node = nm) ?names (nodes env)"
    by (rule list_all2_mono) (use named in blast)
  then have "map label (nodes env) = ?names"
    by (induction rule: list_all2_induct) simp_all
  with each show ?thesis by simp
qed

theorem describe_environment_node_order_witness:
  "\<exists>env w'.
     describe_environment (Ci_describe_node :: (unit, unit, Node) describe_node)
       (full_world ()) = (Inr env, w')
     \<and> map Node.name (nodes env) =
         [''master'', ''keystone-1'', ''storage-1'', ''storage-2'', ''proxy-1'']"
proof -
  let ?dn = "Ci_describe_node :: (unit, unit, Node) describe_node"
  obtain env w' where run: "describe_environment ?dn (full_world ()) = (Inr env, w')"
    by (simp add: describe_environment_Ci_describe_node)
  have named: "\<forall>s nm nets node s'. ?dn s nm nets = (Inr node, s') \<longrightarrow> Node.name node = nm"
    by (auto simp add: Ci_describe_node_def)
  from describe_environment_node_order [OF run named]
  have "map Node.name (nodes env) = ''master'' # keystones (full_world ()) @
      storages (full_world ()) @ proxies (full_world ())"
    by simp
  then have "map Node.name (nodes env) =
      [''master'', ''keystone-1'', ''storage-1'', ''storage-2'', ''proxy-1'']"
    by (simp add: full_world_def)
  with run show ?thesis by (intro exI [of _ env] exI [of _ w'] conjI)
qed

text \<open>
  C2. For any non-empty settings lists, the networks of the Environment that
  \<open>describe_environment\<close> returns are exactly three, named \<open>internal\<close>, \<open>private\<close>,
  \<open>public\<close> in that order, with \<open>dhcp_server\<close> flags True, False, True. (The proof
  makes no use of the lists being non-empty.)
\<close>

theorem describe_environment_networks:
  assumes run: "describe_environment dn w = (Inr env, w')"
    and "keystones w \<noteq> []" and "storages w \<noteq> []" and "proxies w \<noteq> []"
  shows "networks env =
           [\<lparr>Network.name = ''internal'', dhcp_server = True\<rparr>,
            \<lparr>Network.name = ''private'', dhcp_server = False\<rparr>,
            \<lparr>Network.name = ''public'', dhcp_server = True\<rparr>]
       \<and> length (networks env) = 3
       \<and> map Network.name (networks env) = [''internal'', ''private'', ''public'']
       \<and> map dhcp_server (networks env) = [True, False, True]"
  using describe_environment_returns(2) [OF run]
  by (simp add: three_networks_literal)

theorem describe_environment_networks_witness:
  "\<exists>env w'.
     describe_environment (Ci_describe_node :: (unit, unit, Node) describe_node)
       (full_world ()) = (Inr env, w')
     \<and> keystones (full_world ()) \<noteq> [] \<and> storages (full_world ()) \<noteq> []
     \<and> proxies (full_world ()) \<noteq> []
     \<and> map Network.name (networks env) = [''internal'', ''private'', ''public'']
     \<and> map dhcp_server (networks env) = [True, False, True]"
proof -
  let ?dn = "Ci_describe_node :: (unit, unit, Node) describe_node"
  obtain env w' where run: "describe_environment ?dn (full_world ()) = (Inr env, w')"
    by (simp add: describe_environment_Ci_describe_node)
  have k: "keystones (full_world ()) \<noteq> []" and s: "storages (full_world ()) \<noteq> []"
    and p: "proxies (full_world ()) \<noteq> []"
    by (simp_all add: full_world_def)
  from describe_environment_networks [OF run k s p] run k s p show ?thesis
    by (intro exI [of _ env] exI [of _ w'] conjI) simp_all
qed

text \<open>
  C3. For every settings lists, the Environment that \<open>describe_environment\<close> returns
  has exactly \<open>1 + len(keystones) + len(storages) + len(proxies)\<close> nodes.
\<close>

theorem describe_environment_node_count:
  assumes run: "describe_environment dn w = (Inr env, w')"
  shows "length (nodes env) =
           1 + length (keystones w) + length (storages w) + length (proxies w)"
  using describe_each_length [OF describe_environment_returns(1) [OF run]]
  by simp

theorem describe_environment_node_count_witness:
  "\<exists>env w'.
     describe_environment (Ci_describe_node :: (unit, unit, Node) describe_node)
       (full_world ()) = (Inr env, w')
     \<and> length (nodes env) = 5"
proof -
  let ?dn = "Ci_describe_node :: (unit, unit, Node) describe_node"
  obtain env w' where run: "describe_environment ?dn (full_world ()) = (Inr env, w')"
    by (simp add: describe_environment_Ci_describe_node)
  from describe_environment_node_count [OF run] have "length (nodes env) = 5"
    by (simp add: full_world_def)
  with run show ?thesis
    by (intro exI [of _ env] exI [of _ w'] conjI)
qed

text \<open>
  C4. Every node of the returned Environment, position by position the master and the
  keystone, storage and proxy nodes, is what a call of \<open>describe_node\<close> returned for
  its name and the network list \<open>[internal, private, public]\<close>, which is the list
  stored in \<open>environment.networks\<close>. So, when \<open>describe_node\<close> creates one Interface
  per network of its argument list, every node of the result is attached to the three
  networks of the environment and has three interfaces.
\<close>

theorem describe_environment_interfaces:
  assumes run: "describe_environment dn w = (Inr env, w')"
    and one_each: "\<forall>s nm nets node s'. dn s nm nets = (Inr node, s') \<longrightarrow>
                     map network (interfaces node) = nets"
  shows "list_all2 (\<lambda>nm node. \<exists>s s'. dn s nm (networks env) = (Inr node, s'))
           (''master'' # keystones w @ storages w @ proxies w) (nodes env)
       \<and> length (networks env) = 3
       \<and> (\<forall>node \<in> set (nodes env).
             map network (interfaces node) = networks env \<and> length (interfaces node) = 3)"
proof -
  let ?names = "''master'' # keystones w @ storages w @ proxies w"
  have nets: "networks env = three_networks"
    by (rule describe_environment_returns(2) [OF run])
  have calls: "list_all2 (\<lambda>nm node. \<exists>s s'. dn s nm (networks env) = (Inr node, s'))
      ?names (nodes env)"
    using describe_each_calls [OF describe_environment_returns(1) [OF run]] nets by simp
  have len: "length (networks env) = 3"
    by (simp add: nets three_networks_def)
  have "map network (interfaces node) = networks env \<and> length (interfaces node) = 3"
    if "node \<in> set (nodes env)" for node
  proof -
    from that calls obtain nm s s' where "dn s nm (networks env) = (Inr node, s')"
      by (auto simp add: in_set_conv_nth list_all2_conv_all_nth)
    with one_each have att: "map network (interfaces node) = networks env" by blast
    then have "length (interfaces node) = length (networks env)"
      by (metis length_map)
    with att len show ?thesis by simp
  qed
  with calls len show ?thesis by blast
qed

theorem describe_environment_interfaces_witness:
  "\<exists>env w'.
     describe_environment (Ci_describe_node :: (unit, unit, Node) describe_node)
       (full_world ()) = (Inr env, w')
     \<and> list_all (\<lambda>node. map network (interfaces node) = networks env
                        \<and> length (interfaces node) = 3) (nodes env)"
proof -
  let ?dn = "Ci_describe_node :: (unit, unit, Node) describe_node"
  obtain env w' where run: "describe_environment ?dn (full_world ()) = (Inr env, w')"
    by (simp add: describe_environment_Ci_describe_node)
  have one_each: "\<forall>s nm nets node s'. ?dn s nm nets = (Inr node, s') \<longrightarrow>
      map network (interfaces node) = nets"
    by (auto simp add: Ci_describe_node_def comp_def)
  from describe_environment_interfaces [OF run one_each]
  have "list_all (\<lambda>node. map network (interfaces node) = networks env
                        \<and> length (interfaces node) = 3) (nodes env)"
    by (simp add: list_all_iff)
  with run show ?thesis
    by (intro exI [of _ env] exI [of _ w'] conjI)
qed

text \<open>
  C5. For \<open>keystones = ["keystone-1"]\<close>, \<open>storages = ["storage-1", "storage-2"]\<close>,
  \<open>proxies = []\<close>, \<open>describe_environment\<close> returns an Environment with exactly 4
  nodes, named \<open>master\<close>, \<open>keystone-1\<close>, \<open>storage-1\<close>, \<open>storage-2\<close> in this order,
  each attached to 3 networks, and exactly 3 networks named \<open>internal\<close>, \<open>private\<close>,
  \<open>public\<close> with DHCP flags True, False, True. This holds for every \<open>describe_node\<close>
  that returns a node carrying the name it was given and one Interface per network
  of its argument list.
\<close>

theorem describe_environment_example:
  assumes contract: "\<forall>s nm nets. \<exists>node s'. dn s nm nets = (Inr node, s') \<and>
      Node.name node = nm \<and> map network (interfaces node) = nets"
    and k: "keystones w = [''keystone-1'']"
    and s: "storages w = [''storage-1'', ''storage-2'']"
    and p: "proxies w = []"
  shows "\<exists>env w'. describe_environment dn w = (Inr env, w')
       \<and> length (nodes env) = 4
       \<and> map Node.name (nodes env) = [''master'', ''keystone-1'', ''storage-1'', ''storage-2'']
       \<and> (\<forall>node \<in> set (nodes env).
             map network (interfaces node) = networks env \<and> length (interfaces node) = 3)
       \<and> networks env =
           [\<lparr>Network.name = ''internal'', dhcp_server = True\<rparr>,
            \<lparr>Network.name = ''private'', dhcp_server = False\<rparr>,
            \<lparr>Network.name = ''public'', dhcp_server = True\<rparr>]"
proof -
  have "\<exists>node s'. dn s nm three_networks = (Inr node, s')" for s nm
    using contract by blast
  then obtain env w' where run: "describe_environment dn w = (Inr env, w')"
    using describe_environment_total [of dn w] by blast
  have nets: "networks env = three_networks"
    by (rule describe_environment_returns(2) [OF run])
  have calls: "list_all2 (\<lambda>nm node. \<exists>s s'. dn s nm (networks env) = (Inr node, s'))
      [''master'', ''keystone-1'', ''storage-1'', ''storage-2''] (nodes env)"
    using describe_environment_calls [OF run] k s p by simp
  have result: "Node.name node = nm \<and> map network (interfaces node) = nets"
    if "dn s nm nets = (Inr node, s')" for s nm nets node s'
    using contract [rule_format, of s nm nets] that by auto
  from calls have shape: "list_all2 (\<lambda>nm node. Node.name node = nm \<and>
      map network (interfaces node) = networks env)
      [''master'', ''keystone-1'', ''storage-1'', ''storage-2''] (nodes env)"
    by (rule list_all2_mono) (use result in blast)
  then have len: "length (nodes env) = 4"
    by (auto dest: list_all2_lengthD)
  from shape have names: "map Node.name (nodes env) =
      [''master'', ''keystone-1'', ''storage-1'', ''storage-2'']"
    by (auto simp add: list_all2_Cons1)
  have att: "map network (interfaces node) = networks env \<and> length (interfaces node) = 3"
    if "node \<in> set (nodes env)" for node
  proof -
    from that shape have a: "map network (interfaces node) = networks env"
      by (auto simp add: in_set_conv_nth list_all2_conv_all_nth)
    then have "length (interfaces node) = length (networks env)"
      by (metis length_map)
    with a nets show ?thesis by (simp add: three_networks_def)
  qed
  from run len names att nets show ?thesis
    by (intro exI [of _ env] exI [of _ w'] conjI ballI) (simp_all add: three_networks_literal)
qed

theorem describe_environment_example_witness:
  "describe_environment (Ci_describe_node :: (unit, unit, Node) describe_node)
     (example_world ()) =
     (Inr \<lparr>Environment.name = ''swift'', networks = three_networks,
           nodes = map (\<lambda>nm. \<lparr>Node.name = nm,
                                interfaces = map (\<lambda>n. \<lparr>network = n\<rparr>) three_networks\<rparr>)
                     [''master'', ''keystone-1'', ''storage-1'', ''storage-2'']\<rparr>,
      example_world ())
   \<and> (\<exists>env w'.
        describe_environment (Ci_describe_node :: (unit, unit, Node) describe_node)
          (example_world ()) = (Inr env, w')
        \<and> length (nodes env) = 4
        \<and> map Node.name (nodes env) =
            [''master'', ''keystone-1'', ''storage-1'', ''storage-2'']
        \<and> list_all (\<lambda>node. length (interfaces node) = 3) (nodes env)
        \<and> map Network.name (networks env) = [''internal'', ''private'', ''public'']
        \<and> map dhcp_server (networks env) = [True, False, True])"
proof -
  let ?dn = "Ci_describe_node :: (unit, unit, Node) describe_node"
  have contract: "\<forall>s nm nets. \<exists>node s'. ?dn s nm nets = (Inr node, s') \<and>
      Node.name node = nm \<and> map network (interfaces node) = nets"
    by (simp add: Ci_describe_node_def comp_def)
  have k: "keystones (example_world ()) = [''keystone-1'']"
    and s: "storages (example_world ()) = [''storage-1'', ''storage-2'']"
    and p: "proxies (example_world ()) = []"
    by (simp_all add: example_world_def)
  from describe_environment_example [OF contract k s p]
  obtain env w' where run: "describe_environment ?dn (example_world ()) = (Inr env, w')"
    and rest: "length (nodes env) = 4"
      "map Node.name (nodes env) = [''master'', ''keystone-1'', ''storage-1'', ''storage-2'']"
      "\<forall>node \<in> set (nodes env).
         map network (interfaces node) = networks env \<and> length (interfaces node) = 3"
      "networks env =
           [\<lparr>Network.name = ''internal'', dhcp_server = True\<rparr>,
            \<lparr>Network.name = ''private'', dhcp_server = False\<rparr>,
            \<lparr>Network.name = ''public'', dhcp_server = True\<rparr>]"
    by (elim exE conjE) (rule that)
  have computed: "describe_environment ?dn (example_world ()) =
     (Inr \<lparr>Environment.name = ''swift'', networks = three_networks,
           nodes = map (\<lambda>nm. \<lparr>Node.name = nm,
                                interfaces = map (\<lambda>n. \<lparr>network = n\<rparr>) three_networks\<rparr>)
                     [''master'', ''keystone-1'', ''storage-1'', ''storage-2'']\<rparr>,
      example_world ())"
    unfolding describe_environment_Ci_describe_node by (simp add: example_world_def)
  from rest have "list_all (\<lambda>node. length (interfaces node) = 3) (nodes env)"
    by (simp add: list_all_iff)
  with run rest have "\<exists>env w'. describe_environment ?dn (example_world ()) = (Inr env, w')
        \<and> length (nodes env) = 4
        \<and> map Node.name (nodes env) =
            [''master'', ''keystone-1'', ''storage-1'', ''storage-2'']
        \<and> list_all (\<lambda>node. length (interfaces node) = 3) (nodes env)
        \<and> map Network.name (networks env) = [''internal'', ''private'', ''public'']
        \<and> map dhcp_server (networks env) = [True, False, True]"
    by (intro exI [of _ env] exI [of _ w'] conjI) simp_all
  with computed show ?thesis by (rule conjI)
qed

text \<open>
  C6. \<open>describe_environment\<close> is deterministic: two runs with the same
  \<open>environment_name\<close>, the same settings lists and the same deterministic
  \<open>describe_node\<close> return equal results (the same Environment, or the same
  exception), whatever else differs between the two runs. A deterministic factory is
  one whose result is fixed by what it can see: there is a relation \<open>R\<close> between states
  of \<open>self\<close> such that, from related states, \<open>describe_node\<close> returns equal results
  and leaves related states. With \<open>R\<close> relating all states this is a factory
  whose result is a function of its arguments alone; with \<open>R\<close> equality it is
  any factory at all, started from the same \<open>self\<close>.
\<close>

theorem describe_environment_deterministic:
  assumes step: "\<forall>s1 s2 nm nets. R s1 s2 \<longrightarrow>
      fst (dn s1 nm nets) = fst (dn s2 nm nets) \<and> R (snd (dn s1 nm nets)) (snd (dn s2 nm nets))"
    and related: "R (self w1) (self w2)"
    and same_name: "environment_name (self w1) = environment_name (self w2)"
    and same_keystones: "keystones w1 = keystones w2"
    and same_storages: "storages w1 = storages w2"
    and same_proxies: "proxies w1 = proxies w2"
  shows "fst (describe_environment dn w1) = fst (describe_environment dn w2)"
proof -
  let ?names = "''master'' # keystones w2 @ storages w2 @ proxies w2"
  have "fst (describe_each dn three_networks ?names (self w1)) =
      fst (describe_each dn three_networks ?names (self w2))"
    by (rule describe_each_unwinding [of R dn three_networks, OF _ related])
      (use step in blast)
  then show ?thesis
    unfolding describe_environment_describe_each
    by (simp add: same_name same_keystones same_storages same_proxies
        split: prod.splits sum.splits)
qed

theorem describe_environment_deterministic_witness:
  "self (example_world (0::nat)) \<noteq> self (example_world (1::nat))
   \<and> fst (describe_environment (Ci_describe_node :: (nat, unit, Node) describe_node)
          (example_world 0))
     = fst (describe_environment (Ci_describe_node :: (nat, unit, Node) describe_node)
          (example_world 1))"
proof -
  let ?dn = "Ci_describe_node :: (nat, unit, Node) describe_node"
  have step: "\<forall>s1 s2 nm nets. (\<lambda>_ _. True) s1 s2 \<longrightarrow>
      fst (?dn s1 nm nets) = fst (?dn s2 nm nets) \<and>
      (\<lambda>_ _. True) (snd (?dn s1 nm nets)) (snd (?dn s2 nm nets))"
    by (simp add: Ci_describe_node_def)
  have "fst (describe_environment ?dn (example_world 0))
      = fst (describe_environment ?dn (example_world 1))"
    by (rule describe_environment_deterministic [of "\<lambda>_ _. True", OF step])
      (simp_all add: example_world_def)
  moreover have "self (example_world (0::nat)) \<noteq> self (example_world (1::nat))"
    by (simp add: example_world_def)
  ultimately show ?thesis by simp
qed

text \<open>
  C10. The name of the returned Environment is \<open>self.environment_name\<close>, as it was
  when the method was entered. And when all three settings lists are empty, the
  result still has exactly 3 networks and exactly 1 node, the one \<open>describe_node\<close>
  returned for \<open>'master'\<close>.
\<close>

theorem describe_environment_name_and_empty_lists:
  assumes run: "describe_environment dn w = (Inr env, w')"
  shows "Environment.name env = environment_name (self w)
       \<and> (keystones w = [] \<and> storages w = [] \<and> proxies w = [] \<longrightarrow>
            length (networks env) = 3
          \<and> length (nodes env) = 1
          \<and> (\<exists>master. dn (self w) ''master'' (networks env) = (Inr master, self w')
                \<and> nodes env = [master]))"
proof -
  have nm: "Environment.name env = environment_name (self w)"
    by (rule describe_environment_returns(3) [OF run])
  have nets: "networks env = three_networks"
    by (rule describe_environment_returns(2) [OF run])
  have "length (networks env) = 3
      \<and> length (nodes env) = 1
      \<and> (\<exists>master. dn (self w) ''master'' (networks env) = (Inr master, self w')
            \<and> nodes env = [master])"
    if empty: "keystones w = [] \<and> storages w = [] \<and> proxies w = []"
  proof -
    from describe_environment_returns(1) [OF run] empty
    have "describe_each dn three_networks [''master''] (self w) = (Inr (nodes env), self w')"
      by simp
    then have "\<exists>master. dn (self w) ''master'' three_networks = (Inr master, self w')
        \<and> nodes env = [master]"
      by (auto split: prod.splits sum.splits)
    with nets show ?thesis
      by (auto simp add: three_networks_def)
  qed
  with nm show ?thesis by blast
qed

theorem describe_environment_name_and_empty_lists_witness:
  "\<exists>env w'.
     describe_environment (Ci_describe_node :: (unit, unit, Node) describe_node)
       (empty_world ()) = (Inr env, w')
     \<and> Environment.name env = ''swift''
     \<and> length (networks env) = 3
     \<and> nodes env = [\<lparr>Node.name = ''master'',
                       interfaces = map (\<lambda>n. \<lparr>network = n\<rparr>) (networks env)\<rparr>]"
proof -
  let ?dn = "Ci_describe_node :: (unit, unit, Node) describe_node"
  obtain env w' where run: "describe_environment ?dn (empty_world ()) = (Inr env, w')"
    by (simp add: describe_environment_Ci_describe_node)
  have empty: "keystones (empty_world ()) = [] \<and> storages (empty_world ()) = []
      \<and> proxies (empty_world ()) = []"
    by (simp add: empty_world_def)
  from describe_environment_name_and_empty_lists [OF run] empty
  have nm: "Environment.name env = environment_name (self (empty_world ()))"
    and len: "length (networks env) = 3"
    and master: "\<exists>master. ?dn (self (empty_world ())) ''master'' (networks env)
        = (Inr master, self w') \<and> nodes env = [master]"
    by simp_all
  from nm have nm': "Environment.name env = ''swift''"
    by (simp add: empty_world_def)
  from master have "nodes env = [\<lparr>Node.name = ''master'',
      interfaces = map (\<lambda>n. \<lparr>network = n\<rparr>) (networks env)\<rparr>]"
    by (auto simp add: Ci_describe_node_def)
  with run nm' len show ?thesis
    by (intro exI [of _ env] exI [of _ w'] conjI)
qed

text \<open>
  C7. \<open>describe_environment\<close> defines no error conditions of its own and never fails
  for any settings lists, empty lists and duplicate names included. When
  \<open>describe_node\<close> is total (it returns a node for every name and network list), the
  method returns an Environment with its three networks and all its nodes. And every
  exception the method does leave with is one that a call of \<open>describe_node\<close>, for one
  of the names and the three networks, raised.
\<close>

theorem describe_environment_no_errors_of_its_own:
  "((\<forall>s nm nets. \<exists>node s'. dn s nm nets = (Inr node, s')) \<longrightarrow>
      (\<exists>env w'. describe_environment dn w = (Inr env, w')
         \<and> length (networks env) = 3
         \<and> length (nodes env) =
             1 + length (keystones w) + length (storages w) + length (proxies w)))
   \<and> (\<forall>e w'. describe_environment dn w = (Inl e, w') \<longrightarrow>
        (\<exists>s nm. nm \<in> set (''master'' # keystones w @ storages w @ proxies w)
            \<and> dn s nm three_networks = (Inl e, self w')))"
proof (intro conjI impI allI)
  assume total: "\<forall>s nm nets. \<exists>node s'. dn s nm nets = (Inr node, s')"
  then have "\<exists>node s'. dn s nm three_networks = (Inr node, s')" for s nm
    by blast
  then obtain env w' where run: "describe_environment dn w = (Inr env, w')"
    using describe_environment_total [of dn w] by blast
  have "length (networks env) = 3"
    using describe_environment_returns(2) [OF run] by (simp add: three_networks_def)
  moreover have "length (nodes env) =
      1 + length (keystones w) + length (storages w) + length (proxies w)"
    using describe_each_length [OF describe_environment_returns(1) [OF run]] by simp
  ultimately show "\<exists>env w'. describe_environment dn w = (Inr env, w')
      \<and> length (networks env) = 3
      \<and> length (nodes env) =
          1 + length (keystones w) + length (storages w) + length (proxies w)"
    using run by blast
next
  fix e w'
  assume "describe_environment dn w = (Inl e, w')"
  from describe_each_error [OF describe_environment_raises(1) [OF this]]
  show "\<exists>s nm. nm \<in> set (''master'' # keystones w @ storages w @ proxies w)
      \<and> dn s nm three_networks = (Inl e, self w')" .
qed

theorem describe_environment_no_errors_of_its_own_witness:
  "(\<exists>env w'.
      describe_environment (Ci_describe_node :: (unit, unit, Node) describe_node)
        (duplicate_world ()) = (Inr env, w') \<and> length (nodes env) = 3)
   \<and> (\<exists>env w'.
      describe_environment (Ci_describe_node :: (unit, unit, Node) describe_node)
        (empty_world ()) = (Inr env, w') \<and> length (nodes env) = 1)
   \<and> (\<exists>w' s nm.
      describe_environment unique_describe_node (duplicate_world []) = (Inl ''node'', w')
      \<and> unique_describe_node s nm three_networks = (Inl ''node'', self w'))"
proof -
  let ?dn = "Ci_describe_node :: (unit, unit, Node) describe_node"
  have total: "\<forall>s nm nets. \<exists>node s'. ?dn s nm nets = (Inr node, s')"
    by (simp add: Ci_describe_node_def)
  from describe_environment_no_errors_of_its_own
    [of ?dn "duplicate_world ()", THEN conjunct1, THEN mp, OF total]
  obtain env1 w1 where run1: "describe_environment ?dn (duplicate_world ()) = (Inr env1, w1)"
    and len1: "length (nodes env1) = 1 + length (keystones (duplicate_world ()))
        + length (storages (duplicate_world ())) + length (proxies (duplicate_world ()))"
    by (elim exE conjE) (rule that)
  from len1 have "length (nodes env1) = 3"
    by (simp add: duplicate_world_def)
  with run1 have dup: "\<exists>env w'. describe_environment ?dn (duplicate_world ()) = (Inr env, w')
      \<and> length (nodes env) = 3"
    by (intro exI [of _ env1] exI [of _ w1] conjI)
  from describe_environment_no_errors_of_its_own
    [of ?dn "empty_world ()", THEN conjunct1, THEN mp, OF total]
  obtain env2 w2 where run2: "describe_environment ?dn (empty_world ()) = (Inr env2, w2)"
    and len2: "length (nodes env2) = 1 + length (keystones (empty_world ()))
        + length (storages (empty_world ())) + length (proxies (empty_world ()))"
    by (elim exE conjE) (rule that)
  from len2 have "length (nodes env2) = 1"
    by (simp add: empty_world_def)
  with run2 have emp: "\<exists>env w'. describe_environment ?dn (empty_world ()) = (Inr env, w')
      \<and> length (nodes env) = 1"
    by (intro exI [of _ env2] exI [of _ w2] conjI)
  obtain w' where raised:
    "describe_environment unique_describe_node (duplicate_world []) = (Inl ''node'', w')"
    by (simp add: describe_environment_def Let_def unique_describe_node_def
        duplicate_world_def)
  from describe_environment_no_errors_of_its_own
    [of unique_describe_node "duplicate_world []", THEN conjunct2, rule_format, OF raised]
  obtain s nm where "unique_describe_node s nm three_networks = (Inl ''node'', self w')"
    by blast
  with raised have "\<exists>w' s nm.
      describe_environment unique_describe_node (duplicate_world []) = (Inl ''node'', w')
      \<and> unique_describe_node s nm three_networks = (Inl ''node'', self w')"
    by (intro exI [of _ w'] exI [of _ s] exI [of _ nm] conjI)
  with dup emp show ?thesis by (intro conjI)
qed

text \<open>
  C8. \<open>describe_environment\<close> has no effect beyond building its result. Whether it
  returns or raises, the state it leaves differs from the state it started in at most
  in \<open>self\<close>; the lists \<open>keystones\<close>, \<open>storages\<close> and \<open>proxies\<close> are as they were; and
  \<open>self\<close> changes only through the calls of \<open>describe_node\<close>: every reflexive and
  transitive relation that each call of \<open>describe_node\<close> keeps between the state it
  finds and the state it leaves holds between \<open>self\<close> before and after the method. In
  particular, when \<open>describe_node\<close> leaves \<open>self\<close> alone, so does the method. The
  source contains no input or output statement, so the model has none.
\<close>

theorem describe_environment_frame:
  assumes run: "describe_environment dn w = (r, w')"
    and refl: "reflp R" and trans: "transp R"
    and step: "\<forall>s nm nets r s'. dn s nm nets = (r, s') \<longrightarrow> R s s'"
  shows "w' = w\<lparr>self := self w'\<rparr>
       \<and> keystones w' = keystones w \<and> storages w' = storages w \<and> proxies w' = proxies w
       \<and> R (self w) (self w')"
proof -
  let ?names = "''master'' # keystones w @ storages w @ proxies w"
  from run have w': "w' = w\<lparr>self := snd (describe_each dn three_networks ?names (self w))\<rparr>"
    using describe_environment_world [of dn w] by simp
  have "R (self w) (snd (describe_each dn three_networks ?names (self w)))"
    by (rule describe_each_frame [OF refl trans]) (use step in blast)
  with w' show ?thesis by simp
qed

theorem describe_environment_frame_witness:
  "\<exists>r w'.
     describe_environment (Ci_describe_node :: (unit, unit, Node) describe_node)
       (full_world ()) = (r, w')
     \<and> w' = full_world ()"
proof -
  let ?dn = "Ci_describe_node :: (unit, unit, Node) describe_node"
  obtain r w' where run: "describe_environment ?dn (full_world ()) = (r, w')"
    by (cases "describe_environment ?dn (full_world ())")
  have step: "\<forall>s nm nets r s'. ?dn s nm nets = (r, s') \<longrightarrow> s = s'"
    by (auto simp add: Ci_describe_node_def)
  from describe_environment_frame [of ?dn "full_world ()" r w' "(=)", OF run _ _ step]
  have "w' = (full_world ())\<lparr>self := self w'\<rparr>" and "self (full_world ()) = self w'"
    by (simp_all add: reflp_def transp_def)
  then have "w' = (full_world ())\<lparr>self := self (full_world ())\<rparr>"
    by simp
  then have "w' = full_world ()"
    by simp
  with run show ?thesis
    by (intro exI [of _ r] exI [of _ w'] conjI)
qed

text \<open>
  C9. For every settings lists \<open>describe_environment\<close> terminates: when each call of
  \<open>describe_node\<close> returns, so does the method, and it has then called
  \<open>describe_node\<close> exactly \<open>1 + len(keystones) + len(storages) + len(proxies)\<close>
  times, once for the master and once per element in each of the three loops. The
  calls are counted by any counter \<open>c\<close> on \<open>self\<close> that every call of
  \<open>describe_node\<close> advances by one.
\<close>

theorem describe_environment_terminates:
  assumes total: "\<forall>s nm nets. \<exists>node s'. dn s nm nets = (Inr node, s')"
  shows "\<exists>env w'. describe_environment dn w = (Inr env, w')
       \<and> (\<forall>c. (\<forall>s nm nets. c (snd (dn s nm nets)) = Suc (c s)) \<longrightarrow>
              c (self w') = c (self w) +
                (1 + length (keystones w) + length (storages w) + length (proxies w)))"
proof -
  from total have "\<exists>node s'. dn s nm three_networks = (Inr node, s')" for s nm
    by blast
  then obtain env w' where run: "describe_environment dn w = (Inr env, w')"
    using describe_environment_total [of dn w] by blast
  have "c (self w') = c (self w) +
      (1 + length (keystones w) + length (storages w) + length (proxies w))"
    if tick: "\<forall>s nm nets. c (snd (dn s nm nets)) = Suc (c s)" for c
  proof -
    have "c (self w') = c (self w) +
        length (''master'' # keystones w @ storages w @ proxies w)"
      by (rule describe_each_ticks [OF _ describe_environment_returns(1) [OF run]])
        (use tick in blast)
    then show ?thesis by simp
  qed
  with run show ?thesis by blast
qed

theorem describe_environment_terminates_witness:
  "\<exists>env w'.
     describe_environment (counting_describe_node :: (nat, unit, Node) describe_node)
       (example_world 0) = (Inr env, w')
     \<and> Ci.more (self w') = 4"
proof -
  let ?dn = "counting_describe_node :: (nat, unit, Node) describe_node"
  have total: "\<forall>s nm nets. \<exists>node s'. ?dn s nm nets = (Inr node, s')"
    by (simp add: counting_describe_node_def)
  have tick: "\<forall>s nm nets. Ci.more (snd (?dn s nm nets)) = Suc (Ci.more s)"
    by (simp add: counting_describe_node_def)
  from describe_environment_terminates [OF total, of "example_world 0"]
  obtain env w' where run: "describe_environment ?dn (example_world 0) = (Inr env, w')"
    and count: "\<forall>c. (\<forall>s nm nets. c (snd (?dn s nm nets)) = Suc (c s)) \<longrightarrow>
        c (self w') = c (self (example_world 0)) +
          (1 + length (keystones (example_world (0::nat)))
             + length (storages (example_world (0::nat)))
             + length (proxies (example_world (0::nat))))"
    by (elim exE conjE) (rule that)
  from count have "(\<forall>s nm nets. Ci.more (snd (?dn s nm nets)) = Suc (Ci.more s)) \<longrightarrow>
      Ci.more (self w') = Ci.more (self (example_world 0)) +
        (1 + length (keystones (example_world (0::nat)))
           + length (storages (example_world (0::nat)))
           + length (proxies (example_world (0::nat))))"
    by (rule spec)
  with tick have "Ci.more (self w') = 4"
    by (simp add: example_world_def)
  with run show ?thesis
    by (intro exI [of _ env] exI [of _ w'] conjI)
qed

end
